theory Spec2Isabelle
  imports Complex_Main
begin

section \<open>The aircraft data bridge (MqttTrafficDataManagerPython.py)\<close>

text \<open>
  A shallow embedding of class \<open>AircraftDataBridge\<close>. The object's attributes are a
  record that every method takes and returns. Everything the methods ask of the outside
  (HTTP requests, \<open>random.shuffle\<close>, the MQTT publish call, the clock) is answered by a
  \<open>world\<close>: a record of functions indexed by a counter \<open>tick\<close> that the bridge advances
  at each such call, so that two calls with the same arguments may be answered
  differently. A call that may raise returns an \<open>outcome\<close>.
\<close>

subsection \<open>Values\<close>

datatype 'a outcome = Raises | Returns 'a

subsection \<open>Python's floats\<close>

text \<open>
  A Python float is an IEEE 754 double: a finite value (a rational; \<open>Finite 0\<close> is
  \<open>0.0\<close>), \<open>-0.0\<close>, an infinity or a NaN. \<open>round_to_double\<close> is the rounding of a real
  number to the nearest double, ties to even, that \<open>float\<close> of an int, the parsing of a
  number and the multiplication of two floats apply: 53 significant bits, exponents
  from -1022 to 1023, the quantum 2 to the -1074 below 2 to the -1022, an infinity
  from 2 to the 1024 minus 2 to the 970 on.
\<close>

datatype pyfloat = Finite rat | Neg_Zero | Pos_Inf | Neg_Inf | Not_A_Number

text \<open>\<open>int.bit_length\<close> of a positive int.\<close>

function bit_length :: "int \<Rightarrow> nat" where
  "bit_length n = (if n \<le> 0 then 0 else Suc (bit_length (n div 2)))"
  by pat_completeness auto
termination
  by (relation "measure nat") auto

declare bit_length.simps [simp del]

definition two_to :: "int \<Rightarrow> rat" where
  "two_to e = (if 0 \<le> e then 2 ^ nat e else 1 / 2 ^ nat (- e))"

text \<open>For a positive \<open>a\<close>, the \<open>e\<close> with 2 to the \<open>e\<close> at most \<open>a\<close>, below 2 to the \<open>e + 1\<close>.\<close>

definition binary_exponent :: "rat \<Rightarrow> int" where
  "binary_exponent a =
     (if 1 \<le> a then int (bit_length \<lfloor>a\<rfloor>) - 1
      else - int (bit_length (\<lceil>1 / a\<rceil> - 1)))"

definition round_half_even :: "rat \<Rightarrow> int" where
  "round_half_even x =
     (let f = \<lfloor>x\<rfloor>; d = x - of_int f
      in if d < 1 / 2 then f else if 1 / 2 < d then f + 1 else if even f then f else f + 1)"

definition round_to_double :: "rat \<Rightarrow> pyfloat" where
  "round_to_double x =
     (if x = 0 then Finite 0
      else (let a = \<bar>x\<bar>;
                e = max (binary_exponent a) (- 1022);
                q = two_to (e - 52);
                n = round_half_even (a / q)
            in if n = 0 then (if 0 < x then Finite 0 else Neg_Zero)
               else if 1024 \<le> e \<or> (e = 1023 \<and> n = 2 ^ 53)
                    then (if 0 < x then Pos_Inf else Neg_Inf)
               else Finite ((if 0 < x then 1 else - 1) * of_int n * q)))"

fun is_nan :: "pyfloat \<Rightarrow> bool" where
  "is_nan Not_A_Number = True"
| "is_nan _ = False"

fun is_inf :: "pyfloat \<Rightarrow> bool" where
  "is_inf Pos_Inf = True"
| "is_inf Neg_Inf = True"
| "is_inf _ = False"

fun is_zero :: "pyfloat \<Rightarrow> bool" where
  "is_zero (Finite r) = (r = 0)"
| "is_zero Neg_Zero = True"
| "is_zero _ = False"

fun sign_bit :: "pyfloat \<Rightarrow> bool" where
  "sign_bit (Finite r) = (r < 0)"
| "sign_bit Neg_Zero = True"
| "sign_bit Neg_Inf = True"
| "sign_bit _ = False"

fun finite_value :: "pyfloat \<Rightarrow> rat" where
  "finite_value (Finite r) = r"
| "finite_value _ = 0"

text \<open>\<open>x * y\<close> on floats.\<close>

definition float_mul :: "pyfloat \<Rightarrow> pyfloat \<Rightarrow> pyfloat" where
  "float_mul x y =
     (if is_nan x \<or> is_nan y \<or> (is_inf x \<and> is_zero y) \<or> (is_zero x \<and> is_inf y)
      then Not_A_Number
      else if is_inf x \<or> is_inf y
           then (if sign_bit x \<noteq> sign_bit y then Neg_Inf else Pos_Inf)
      else if is_zero x \<or> is_zero y
           then (if sign_bit x \<noteq> sign_bit y then Neg_Zero else Finite 0)
      else round_to_double (finite_value x * finite_value y))"

text \<open>
  A number as \<open>min\<close>, \<open>max\<close> and \<open>int\<close> meet it, an int or a float, and \<open>a < b\<close> on
  numbers: the comparison of the exact values, false when a NaN is compared.
\<close>

datatype number = An_Int int | A_Float pyfloat

fun float_less :: "pyfloat \<Rightarrow> pyfloat \<Rightarrow> bool" where
  "float_less Not_A_Number y = False"
| "float_less x Not_A_Number = False"
| "float_less Pos_Inf y = False"
| "float_less x Pos_Inf = True"
| "float_less x Neg_Inf = False"
| "float_less Neg_Inf y = True"
| "float_less x y = (finite_value x < finite_value y)"

fun as_float :: "number \<Rightarrow> pyfloat" where
  "as_float (An_Int k) = Finite (of_int k)"
| "as_float (A_Float x) = x"

definition number_less :: "number \<Rightarrow> number \<Rightarrow> bool" where
  "number_less a b = float_less (as_float a) (as_float b)"

text \<open>\<open>min(a, b)\<close> and \<open>max(a, b)\<close> keep \<open>a\<close> unless \<open>b\<close> is smaller, or greater.\<close>

definition py_min :: "number \<Rightarrow> number \<Rightarrow> number" where
  "py_min a b = (if number_less b a then b else a)"

definition py_max :: "number \<Rightarrow> number \<Rightarrow> number" where
  "py_max a b = (if number_less a b then b else a)"

text \<open>
  \<open>int(x)\<close>: a float is truncated towards zero; an infinity raises \<open>OverflowError\<close>, a
  NaN \<open>ValueError\<close>.
\<close>

fun py_int :: "number \<Rightarrow> int outcome" where
  "py_int (An_Int k) = Returns k"
| "py_int (A_Float (Finite r)) = Returns (if 0 \<le> r then \<lfloor>r\<rfloor> else \<lceil>r\<rceil>)"
| "py_int (A_Float Neg_Zero) = Returns 0"
| "py_int (A_Float Pos_Inf) = Raises"
| "py_int (A_Float Neg_Inf) = Raises"
| "py_int (A_Float Not_A_Number) = Raises"

subsection \<open>JSON values, requests and messages\<close>

text \<open>
  What \<open>json.loads\<close> and \<open>response.json()\<close> return. An object carries the items of
  the Python dict (keys distinct).
\<close>

datatype json =
    JNull
  | JBool bool
  | JInt int
  | JFloat pyfloat
  | JStr string
  | JArr "json list"
  | JObj "(string \<times> json) list"

record response =
  status_code :: int
  json_body :: "json outcome"

text \<open>The query the Airplanes.live URL is formatted from.\<close>

record tier1_request =
  req_lat :: json
  req_lon :: json
  req_dist :: int

record mqtt_msg =
  topic :: string
  payload :: "string outcome"

text \<open>
  Every \<open>logger\<close> call of the modelled methods at level INFO or above, the level
  \<open>logging.basicConfig\<close> sets; \<open>logger.debug\<close> calls emit nothing. The text of an
  exception is left out.
\<close>

datatype log_entry =
    Loaded_Proxies nat
  | Csv_Not_Found
  | Csv_Load_Error
  | Using_Proxy string
  | No_Working_Proxy_Will_Try_Direct
  | Found_Working_Proxy string
  | Connected_To_Broker
  | Subscribed_To string
  | Connect_Failed int
  | Unexpected_Disconnection int
  | Attempting_To_Reconnect
  | Message_Received string
  | Update_Requested
  | Received_Command json
  | Update_Requested_Plain_Text
  | Received_Message string
  | Error_Processing_Message
  | Fetching_Airplanes_Live json json int
  | Fetching_OpenSky
  | Successfully_Fetched nat
  | Published_To string
  | Api_Request_Failed int
  | Error_Fetching_Or_Publishing
  | Switching_Proxy
  | Switched_To string
  | No_Working_Proxy_Trying_Direct

text \<open>
  The outside. \<open>tier2_get\<close> takes the \<open>proxies\<close> argument of the call, \<open>None\<close> for
  the call without one. \<open>json_loads\<close> and \<open>float_of_str\<close> (\<open>float\<close> on a string)
  are the library's and do not depend on the counter. \<open>json.loads\<close> returns the
  decoded value, raises \<open>JSONDecodeError\<close>, or raises another exception
  (\<open>RecursionError\<close>, a \<open>ValueError\<close> on an int of too many digits).
\<close>

datatype loads_result = Loaded json | Json_Decode_Error | Other_Error

record world =
  shuffle :: "nat \<Rightarrow> string list \<Rightarrow> string list"
  probe :: "nat \<Rightarrow> string \<Rightarrow> int outcome"
  tier1_get :: "nat \<Rightarrow> tier1_request \<Rightarrow> response outcome"
  tier2_get :: "nat \<Rightarrow> (string \<times> string) list option \<Rightarrow> response outcome"
  publish :: "nat \<Rightarrow> string \<Rightarrow> json \<Rightarrow> unit outcome"
  now :: "nat \<Rightarrow> int"
  json_loads :: "string \<Rightarrow> loads_result"
  float_of_str :: "string \<Rightarrow> pyfloat outcome"

text \<open>
  The attributes of the bridge that the modelled methods read or write, with the
  messages handed to the MQTT client (\<open>outbox\<close>), its subscriptions, the emitted log
  and the counter of the calls made to the outside. \<open>last_request_params\<close> is \<open>None\<close>
  while the attribute does not exist.
\<close>

record bridge =
  is_connected :: bool
  subscribed :: "string list"
  use_proxy :: bool
  proxies :: "(string \<times> string) list"
  proxy_list :: "string list"
  current_proxy :: "string option"
  proxy_failures :: "string \<rightharpoonup> nat"
  last_request_params :: "json option"
  outbox :: "(string \<times> json) list"
  logged :: "log_entry list"
  tick :: nat

definition request_topic :: string where
  "request_topic = ''aircraft/request''"

definition aircraft_data_topic :: string where
  "aircraft_data_topic = ''aircraft/traffic''"

definition max_retries :: nat where
  "max_retries = 3"

definition emit :: "log_entry \<Rightarrow> bridge \<Rightarrow> bridge" where
  "emit e s = s\<lparr>logged := logged s @ [e]\<rparr>"

definition advance :: "bridge \<Rightarrow> bridge" where
  "advance s = s\<lparr>tick := Suc (tick s)\<rparr>"

subsection \<open>Python's strings and values\<close>

fun startswith :: "string \<Rightarrow> string \<Rightarrow> bool" where
  "startswith s [] = True"
| "startswith [] (c # cs) = False"
| "startswith (d # ds) (c # cs) = (d = c \<and> startswith ds cs)"

text \<open>\<open>sub in s\<close> on strings.\<close>

fun contains_str :: "string \<Rightarrow> string \<Rightarrow> bool" where
  "contains_str sub [] = (sub = [])"
| "contains_str sub (c # cs) = (startswith (c # cs) sub \<or> contains_str sub cs)"

text \<open>
  Text is a list of code points below 256. \<open>str.strip\<close> removes the white space of
  \<open>str.isspace\<close> (in this range: the ASCII white space, \<open>U+0085\<close> and \<open>U+00A0\<close>) and
  \<open>str.lower\<close> lowers the letters that have a lower case there (\<open>A\<close> to \<open>Z\<close>, and
  \<open>U+00C0\<close> to \<open>U+00DE\<close> but \<open>U+00D7\<close>).
\<close>

definition is_space :: "char \<Rightarrow> bool" where
  "is_space c = (c \<in> set [CHR '' '', CHR 0x09, CHR 0x0A, CHR 0x0B, CHR 0x0C, CHR 0x0D,
                           CHR 0x1C, CHR 0x1D, CHR 0x1E, CHR 0x1F, CHR 0x85, CHR 0xA0])"

definition py_strip :: "string \<Rightarrow> string" where
  "py_strip s = rev (dropWhile is_space (rev (dropWhile is_space s)))"

definition upper_case :: string where
  "upper_case =
     ''ABCDEFGHIJKLMNOPQRSTUVWXYZ'' @
     [CHR 0xC0, CHR 0xC1, CHR 0xC2, CHR 0xC3, CHR 0xC4, CHR 0xC5, CHR 0xC6,
      CHR 0xC7, CHR 0xC8, CHR 0xC9, CHR 0xCA, CHR 0xCB, CHR 0xCC, CHR 0xCD,
      CHR 0xCE, CHR 0xCF, CHR 0xD0, CHR 0xD1, CHR 0xD2, CHR 0xD3, CHR 0xD4,
      CHR 0xD5, CHR 0xD6, CHR 0xD8, CHR 0xD9, CHR 0xDA, CHR 0xDB, CHR 0xDC,
      CHR 0xDD, CHR 0xDE]"

definition lower_case :: string where
  "lower_case =
     ''abcdefghijklmnopqrstuvwxyz'' @
     [CHR 0xE0, CHR 0xE1, CHR 0xE2, CHR 0xE3, CHR 0xE4, CHR 0xE5, CHR 0xE6,
      CHR 0xE7, CHR 0xE8, CHR 0xE9, CHR 0xEA, CHR 0xEB, CHR 0xEC, CHR 0xED,
      CHR 0xEE, CHR 0xEF, CHR 0xF0, CHR 0xF1, CHR 0xF2, CHR 0xF3, CHR 0xF4,
      CHR 0xF5, CHR 0xF6, CHR 0xF8, CHR 0xF9, CHR 0xFA, CHR 0xFB, CHR 0xFC,
      CHR 0xFD, CHR 0xFE]"

definition lower_char :: "char \<Rightarrow> char" where
  "lower_char c = (case map_of (zip upper_case lower_case) c of Some d \<Rightarrow> d | None \<Rightarrow> c)"

definition py_lower :: "string \<Rightarrow> string" where
  "py_lower s = map lower_char s"

text \<open>The truth value of a Python object that came from JSON.\<close>

fun py_truthy :: "json \<Rightarrow> bool" where
  "py_truthy JNull = False"
| "py_truthy (JBool b) = b"
| "py_truthy (JInt k) = (k \<noteq> 0)"
| "py_truthy (JFloat x) = (\<not> is_zero x)"
| "py_truthy (JStr s) = (s \<noteq> [])"
| "py_truthy (JArr xs) = (xs \<noteq> [])"
| "py_truthy (JObj kvs) = (kvs \<noteq> [])"

definition py_or :: "json \<Rightarrow> json \<Rightarrow> json" where
  "py_or a b = (if py_truthy a then a else b)"

text \<open>\<open>d.get(k, default)\<close> and \<open>d.get(k)\<close> on a dict.\<close>

definition dict_get_default :: "(string \<times> json) list \<Rightarrow> string \<Rightarrow> json \<Rightarrow> json" where
  "dict_get_default kvs k d = (case map_of kvs k of None \<Rightarrow> d | Some v \<Rightarrow> v)"

definition dict_get :: "(string \<times> json) list \<Rightarrow> string \<Rightarrow> json" where
  "dict_get kvs k = dict_get_default kvs k JNull"

text \<open>
  \<open>k in x\<close> for a string \<open>k\<close>: a key of a dict, an element of a list, a substring of
  a string, and a \<open>TypeError\<close> on anything else.
\<close>

fun py_in :: "string \<Rightarrow> json \<Rightarrow> bool outcome" where
  "py_in k (JObj kvs) = Returns (k \<in> set (map fst kvs))"
| "py_in k (JArr xs) = Returns (JStr k \<in> set xs)"
| "py_in k (JStr s) = Returns (contains_str k s)"
| "py_in k JNull = Raises"
| "py_in k (JBool b) = Raises"
| "py_in k (JInt i) = Raises"
| "py_in k (JFloat r) = Raises"

text \<open>\<open>len(x)\<close>: a \<open>TypeError\<close> on \<open>None\<close>, a bool and a number.\<close>

fun py_len :: "json \<Rightarrow> nat outcome" where
  "py_len (JArr xs) = Returns (length xs)"
| "py_len (JStr s) = Returns (length s)"
| "py_len (JObj kvs) = Returns (length kvs)"
| "py_len JNull = Raises"
| "py_len (JBool b) = Raises"
| "py_len (JInt i) = Raises"
| "py_len (JFloat r) = Raises"

text \<open>
  \<open>float(x)\<close>: an int is rounded to the nearest double and raises \<open>OverflowError\<close>
  when that is an infinity; \<open>None\<close>, a list and a dict raise \<open>TypeError\<close>.
\<close>

fun py_float :: "world \<Rightarrow> json \<Rightarrow> pyfloat outcome" where
  "py_float w (JInt k) =
     (case round_to_double (of_int k) of Finite r \<Rightarrow> Returns (Finite r) | _ \<Rightarrow> Raises)"
| "py_float w (JFloat x) = Returns x"
| "py_float w (JBool b) = Returns (Finite (if b then 1 else 0))"
| "py_float w (JStr s) = float_of_str w s"
| "py_float w JNull = Raises"
| "py_float w (JArr xs) = Raises"
| "py_float w (JObj kvs) = Raises"

subsection \<open>The proxy pool\<close>

text \<open>\<open>proxy in self.proxy_failures and self.proxy_failures[proxy] >= 3\<close>\<close>

definition blacklisted :: "bridge \<Rightarrow> string \<Rightarrow> bool" where
  "blacklisted s proxy =
     (case proxy_failures s proxy of None \<Rightarrow> False | Some n \<Rightarrow> n \<ge> 3)"

text \<open>
  The two branches \<open>self.proxy_failures[p] = 1\<close> and \<open>self.proxy_failures[p] += 1\<close>,
  written the same way in \<open>test_proxy\<close> and in the handler of
  \<open>fetch_and_publish_data\<close>.
\<close>

definition record_failure :: "string \<Rightarrow> bridge \<Rightarrow> bridge" where
  "record_failure proxy s =
     s\<lparr>proxy_failures := (proxy_failures s)
        (proxy \<mapsto> (case proxy_failures s proxy of None \<Rightarrow> 1 | Some n \<Rightarrow> n + 1))\<rparr>"

text \<open>The number the dictionary holds for a candidate, 0 when it has no entry.\<close>

definition failure_count :: "bridge \<Rightarrow> string \<Rightarrow> nat" where
  "failure_count s proxy = (case proxy_failures s proxy of None \<Rightarrow> 0 | Some n \<Rightarrow> n)"

definition test_proxy :: "world \<Rightarrow> string \<Rightarrow> bridge \<Rightarrow> bool \<times> bridge" where
  "test_proxy w proxy s =
     (if blacklisted s proxy then (False, s)
      else (case probe w (tick s) proxy of
              Returns status \<Rightarrow> (status = 200, advance s)
            | Raises \<Rightarrow> (False, record_failure proxy (advance s))))"

text \<open>The \<open>for\<close> loop of \<open>find_working_proxy\<close> over the shuffled copy.\<close>

fun try_proxies :: "world \<Rightarrow> string list \<Rightarrow> bridge \<Rightarrow> string option \<times> bridge" where
  "try_proxies w [] s = (None, s)"
| "try_proxies w (proxy # rest) s =
     (case test_proxy w proxy s of
        (True, s') \<Rightarrow> (Some proxy, emit (Found_Working_Proxy proxy) s')
      | (False, s') \<Rightarrow> try_proxies w rest s')"

definition find_working_proxy :: "world \<Rightarrow> bridge \<Rightarrow> string option \<times> bridge" where
  "find_working_proxy w s =
     (if proxy_list s = [] then (None, s)
      else try_proxies w (shuffle w (tick s) (proxy_list s)) (advance s))"

text \<open>Python's truth value of \<open>self.current_proxy\<close> and \<open>new_proxy\<close>: a non-empty string.\<close>

definition truthy_proxy :: "string option \<Rightarrow> bool" where
  "truthy_proxy p = (case p of None \<Rightarrow> False | Some a \<Rightarrow> a \<noteq> [])"

definition proxies_for :: "string option \<Rightarrow> (string \<times> string) list" where
  "proxies_for p = (case p of None \<Rightarrow> [] | Some a \<Rightarrow> [(''http'', a), (''https'', a)])"

definition switch_proxy :: "world \<Rightarrow> bridge \<Rightarrow> bridge" where
  "switch_proxy w s =
     (case find_working_proxy w (emit Switching_Proxy s) of
        (new_proxy, s') \<Rightarrow>
          if truthy_proxy new_proxy
          then (case new_proxy of
                  Some a \<Rightarrow> emit (Switched_To a)
                              (s'\<lparr>current_proxy := new_proxy, proxies := proxies_for new_proxy\<rparr>)
                | None \<Rightarrow> s')
          else (emit No_Working_Proxy_Trying_Direct s')
                 \<lparr>use_proxy := False, current_proxy := None, proxies := []\<rparr>)"

subsection \<open>Loading the candidates\<close>

text \<open>
  What \<open>load_proxies_from_csv\<close> finds at the path: no file, the rows that
  \<open>csv.reader\<close> yields, or some rows and then an exception (from \<open>open\<close> when there
  are none).
\<close>

datatype csv_file =
    Csv_Missing
  | Csv_Rows "string list list"
  | Csv_Rows_Then_Error "string list list"

text \<open>\<open>row and len(row) > 0 and row[0].startswith('socks4://')\<close>\<close>

definition accepted :: "string list \<Rightarrow> bool" where
  "accepted row = (case row of [] \<Rightarrow> False | a # _ \<Rightarrow> startswith a ''socks4://'')"

fun load_rows :: "string list list \<Rightarrow> bridge \<Rightarrow> bridge" where
  "load_rows [] s = s"
| "load_rows (row # rows) s =
     load_rows rows
       (case row of
          [] \<Rightarrow> s
        | a # _ \<Rightarrow> if accepted row then s\<lparr>proxy_list := proxy_list s @ [a]\<rparr> else s)"

definition load_proxies_from_csv :: "csv_file \<Rightarrow> bridge \<Rightarrow> bridge" where
  "load_proxies_from_csv f s =
     (case f of
        Csv_Missing \<Rightarrow> emit Csv_Not_Found s
      | Csv_Rows rows \<Rightarrow>
          (let s' = load_rows rows s in emit (Loaded_Proxies (length (proxy_list s'))) s')
      | Csv_Rows_Then_Error rows \<Rightarrow> emit Csv_Load_Error (load_rows rows s))"

subsection \<open>One fetch attempt\<close>

text \<open>
  The first part of the \<open>try\<close> block: whether the Airplanes.live point endpoint is
  asked, and with which query. \<open>Returns None\<close> skips it; an exception here leaves the
  \<open>try\<close> block.
\<close>

definition request_params :: "bridge \<Rightarrow> json" where
  "request_params s = (case last_request_params s of None \<Rightarrow> JNull | Some j \<Rightarrow> j)"

text \<open>\<open>int(max(10000, min(400000, radius_km * 1000)))\<close>\<close>

definition radius_m :: "pyfloat \<Rightarrow> int outcome" where
  "radius_m radius_km =
     py_int (py_max (An_Int 10000)
               (py_min (An_Int 400000) (A_Float (float_mul radius_km (Finite 1000)))))"

definition has_center :: "json \<Rightarrow> bool outcome" where
  "has_center rp =
     (if \<not> py_truthy rp then Returns False
      else (case py_in ''center_lat'' rp of
              Raises \<Rightarrow> Raises
            | Returns False \<Rightarrow> Returns False
            | Returns True \<Rightarrow> py_in ''center_lon'' rp))"

definition plan_tier1 :: "world \<Rightarrow> json \<Rightarrow> tier1_request option outcome" where
  "plan_tier1 w rp =
     (case has_center rp of
        Raises \<Rightarrow> Raises
      | Returns False \<Rightarrow> Returns None
      | Returns True \<Rightarrow>
          (case rp of
             JObj kvs \<Rightarrow>
               (case py_float w (dict_get_default kvs ''radius_km'' (JInt 250)) of
                  Raises \<Rightarrow> Raises
                | Returns radius_km \<Rightarrow>
                    (case radius_m radius_km of
                       Raises \<Rightarrow> Raises
                     | Returns metres \<Rightarrow>
                         Returns (Some \<lparr>req_lat = dict_get kvs ''center_lat'',
                                        req_lon = dict_get kvs ''center_lon'',
                                        req_dist = metres\<rparr>)))
           | _ \<Rightarrow> Raises))"

text \<open>
  The Airplanes.live request with its own \<open>try\<close>: an exception and a status other than
  200 both leave \<open>response\<close> at \<open>None\<close>.
\<close>

definition tier1 :: "world \<Rightarrow> tier1_request option \<Rightarrow> bridge \<Rightarrow> response option \<times> bridge" where
  "tier1 w plan s =
     (case plan of
        None \<Rightarrow> (None, s)
      | Some req \<Rightarrow>
          (let s1 = emit (Fetching_Airplanes_Live (req_lat req) (req_lon req) (req_dist req)) s
           in (case tier1_get w (tick s1) req of
                 Raises \<Rightarrow> (None, advance s1)
               | Returns r \<Rightarrow> (if status_code r \<noteq> 200 then None else Some r, advance s1))))"

text \<open>The OpenSky request, through \<open>self.proxies\<close> when a proxy is in use.\<close>

definition proxy_active :: "bridge \<Rightarrow> bool" where
  "proxy_active s = (use_proxy s \<and> truthy_proxy (current_proxy s))"

definition tier2 :: "world \<Rightarrow> bridge \<Rightarrow> response outcome \<times> bridge" where
  "tier2 w s =
     (let s1 = emit Fetching_OpenSky s
      in (tier2_get w (tick s1) (if proxy_active s1 then Some (proxies s1) else None),
          advance s1))"

text \<open>One aircraft of an Airplanes.live answer as an OpenSky state vector.\<close>

definition normalise_ac :: "json \<Rightarrow> json outcome" where
  "normalise_ac ac =
     (case ac of
        JObj kvs \<Rightarrow>
          (let icao24 = py_or (py_or (dict_get kvs ''icao'') (dict_get kvs ''hex'')) (JStr []);
               callsign = py_or (dict_get kvs ''call'') (JStr []);
               origin_country = JStr [];
               lon = py_or (dict_get kvs ''lon'') (JInt 0);
               lat = py_or (dict_get kvs ''lat'') (JInt 0);
               alt_baro0 = py_or (dict_get kvs ''alt_baro'') (dict_get kvs ''alt_baro_ft'');
               alt_baro = (if alt_baro0 = JNull then JInt 0 else alt_baro0);
               vel = py_or (dict_get kvs ''gs'') (JInt 0);
               track = py_or (dict_get kvs ''track'') (JInt 0);
               vr = py_or (dict_get kvs ''roc'') (JInt 0);
               on_ground = JBool (py_truthy (dict_get kvs ''gnd''))
           in Returns (JArr ([icao24, callsign, origin_country, JNull, JNull, lon, lat,
                              alt_baro, on_ground, vel, track, vr] @ replicate 5 JNull)))
      | _ \<Rightarrow> Raises)"

fun normalise_all :: "json list \<Rightarrow> json list outcome" where
  "normalise_all [] = Returns []"
| "normalise_all (ac # acs) =
     (case normalise_ac ac of
        Raises \<Rightarrow> Raises
      | Returns state \<Rightarrow>
          (case normalise_all acs of
             Raises \<Rightarrow> Raises
           | Returns states \<Rightarrow> Returns (state # states)))"

text \<open>
  From \<open>data = response.json()\<close> to the \<open>len\<close> of the first log line: the data to
  publish and the number of aircraft, or an exception.
\<close>

definition normalise :: "int \<Rightarrow> json \<Rightarrow> (json \<times> nat) outcome" where
  "normalise time data =
     (case data of
        JObj kvs \<Rightarrow>
          (case map_of kvs ''ac'' of
             Some (JArr acs) \<Rightarrow>
               (case normalise_all acs of
                  Raises \<Rightarrow> Raises
                | Returns states \<Rightarrow>
                    Returns (JObj [(''time'', JInt time), (''states'', JArr states)],
                             length states))
           | _ \<Rightarrow>
               (case py_len (dict_get_default kvs ''states'' (JArr [])) of
                  Raises \<Rightarrow> Raises
                | Returns n \<Rightarrow> Returns (data, n)))
      | _ \<Rightarrow> Raises)"

text \<open>
  How an attempt ends: \<open>Published\<close> is the \<open>return\<close>, \<open>Bad_Status\<close> the \<open>else\<close>
  branch up to the call of \<open>switch_proxy\<close>, \<open>Raised\<close> an exception that reaches the
  handler of the \<open>try\<close> block.
\<close>

datatype attempt_result = Published | Bad_Status | Raised

definition handle_response :: "world \<Rightarrow> response \<Rightarrow> bridge \<Rightarrow> attempt_result \<times> bridge" where
  "handle_response w r s =
     (if status_code r = 200
      then (case json_body r of
              Raises \<Rightarrow> (Raised, s)
            | Returns data0 \<Rightarrow>
                (case normalise (now w (tick s)) data0 of
                   Raises \<Rightarrow> (Raised, s)
                 | Returns (data, n) \<Rightarrow>
                     (let s1 = emit (Successfully_Fetched n) s
                      in (case publish w (tick s1) aircraft_data_topic data of
                            Raises \<Rightarrow> (Raised, advance s1)
                          | Returns _ \<Rightarrow>
                              (Published,
                               emit (Published_To aircraft_data_topic)
                                 ((advance s1)\<lparr>outbox := outbox s1 @ [(aircraft_data_topic, data)]\<rparr>))))))
      else (Bad_Status, emit (Api_Request_Failed (status_code r)) s))"

definition attempt :: "world \<Rightarrow> bridge \<Rightarrow> attempt_result \<times> bridge" where
  "attempt w s =
     (case plan_tier1 w (request_params s) of
        Raises \<Rightarrow> (Raised, s)
      | Returns plan \<Rightarrow>
          (case tier1 w plan s of
             (Some r, s1) \<Rightarrow> handle_response w r s1
           | (None, s1) \<Rightarrow>
               (case tier2 w s1 of
                  (Raises, s2) \<Rightarrow> (Raised, s2)
                | (Returns r, s2) \<Rightarrow> handle_response w r s2)))"

subsection \<open>The retry loop\<close>

text \<open>The \<open>except Exception\<close> handler of the loop body.\<close>

definition on_exception :: "world \<Rightarrow> bridge \<Rightarrow> bridge" where
  "on_exception w s =
     (let s1 = emit Error_Fetching_Or_Publishing s
      in (case current_proxy s1 of
            Some p \<Rightarrow> if proxy_active s1 then switch_proxy w (record_failure p s1) else s1
          | None \<Rightarrow> s1))"

text \<open>
  The \<open>while\<close> loop; the \<open>time.sleep(2)\<close> between two attempts changes nothing of the
  bridge.
\<close>

function fetch_loop :: "world \<Rightarrow> nat \<Rightarrow> bridge \<Rightarrow> bridge" where
  "fetch_loop w retry_count s =
     (if retry_count < max_retries
      then (case attempt w s of
              (Published, s') \<Rightarrow> s'
            | (Bad_Status, s') \<Rightarrow> fetch_loop w (Suc retry_count) (switch_proxy w s')
            | (Raised, s') \<Rightarrow> fetch_loop w (Suc retry_count) (on_exception w s'))
      else s)"
  by pat_completeness auto
termination
  by (relation "measure (\<lambda>(w, retry_count, s). max_retries - retry_count)") auto

declare fetch_loop.simps [simp del]

definition fetch_and_publish_data :: "world \<Rightarrow> bridge \<Rightarrow> bridge" where
  "fetch_and_publish_data w s = fetch_loop w 0 s"

subsection \<open>The session\<close>

text \<open>The attributes as the constructor sets them before it loads the candidates.\<close>

definition new_bridge :: bridge where
  "new_bridge =
     \<lparr>is_connected = False, subscribed = [], use_proxy = True, proxies = [],
      proxy_list = [], current_proxy = None, proxy_failures = Map.empty,
      last_request_params = None, outbox = [], logged = [], tick = 0\<rparr>"


definition on_connect :: "world \<Rightarrow> int \<Rightarrow> bridge \<Rightarrow> bridge" where
  "on_connect w rc s =
     (if rc = 0
      then fetch_and_publish_data w
             (emit (Subscribed_To request_topic)
                ((emit Connected_To_Broker (s\<lparr>is_connected := True\<rparr>))
                   \<lparr>subscribed := subscribed s @ [request_topic]\<rparr>))
      else emit (Connect_Failed rc) s)"

definition on_disconnect :: "int \<Rightarrow> bridge \<Rightarrow> bridge" where
  "on_disconnect rc s =
     (let s1 = s\<lparr>is_connected := False\<rparr>
      in if rc \<noteq> 0
         then emit Attempting_To_Reconnect (emit (Unexpected_Disconnection rc) s1)
         else s1)"

definition on_message :: "world \<Rightarrow> mqtt_msg \<Rightarrow> bridge \<Rightarrow> bridge" where
  "on_message w msg s =
     (case payload msg of
        Raises \<Rightarrow> emit Error_Processing_Message s
      | Returns text \<Rightarrow>
          (let s1 = emit (Message_Received (topic msg)) s
           in if topic msg = request_topic
              then (case json_loads w text of
                      Loaded request_data \<Rightarrow>
                        (let s2 = s1\<lparr>last_request_params := Some request_data\<rparr>
                         in (case request_data of
                               JObj kvs \<Rightarrow>
                                 if dict_get kvs ''command'' = JStr ''update''
                                 then fetch_and_publish_data w (emit Update_Requested s2)
                                 else emit (Received_Command
                                        (dict_get_default kvs ''command'' (JStr ''unknown''))) s2
                             | _ \<Rightarrow> emit Error_Processing_Message s2))
                    | Json_Decode_Error \<Rightarrow>
                        if py_lower (py_strip text) = ''update''
                        then fetch_and_publish_data w (emit Update_Requested_Plain_Text s1)
                        else emit (Received_Message text) s1
                    | Other_Error \<Rightarrow> emit Error_Processing_Message s1)
              else s1))"

text \<open>
  What the MQTT client's thread delivers after the constructor has run. The periodic
  publisher thread is not part of it: \<open>enable_periodic_publishing\<close> is \<open>False\<close> and
  nothing sets it.
\<close>

datatype event = Connect int | Disconnect int | Message mqtt_msg

fun step :: "world \<Rightarrow> event \<Rightarrow> bridge \<Rightarrow> bridge" where
  "step w (Connect rc) s = on_connect w rc s"
| "step w (Disconnect rc) s = on_disconnect rc s"
| "step w (Message msg) s = on_message w msg s"

fun run :: "world \<Rightarrow> event list \<Rightarrow> bridge \<Rightarrow> bridge" where
  "run w [] s = s"
| "run w (e # es) s = run w es (step w e s)"

subsection \<open>Notions of the statements\<close>

text \<open>
  \<open>later s s'\<close>: what holds between a state and every state the bridge reaches from
  it. No failure count goes down, \<open>use_proxy\<close> does not come back to true, the
  candidate list is the same, the log has only grown, and a candidate that had 3
  failures in \<open>s\<close> is not logged as found and does not become the current proxy.
\<close>

definition later :: "bridge \<Rightarrow> bridge \<Rightarrow> bool" where
  "later s s' =
     ((\<forall>q. failure_count s q \<le> failure_count s' q) \<and>
      (use_proxy s' \<longrightarrow> use_proxy s) \<and>
      proxy_list s' = proxy_list s \<and>
      tick s \<le> tick s' \<and>
      (\<exists>l. logged s' = logged s @ l \<and>
           (\<forall>q. 3 \<le> failure_count s q \<longrightarrow> Found_Working_Proxy q \<notin> set l)) \<and>
      (\<forall>q. 3 \<le> failure_count s q \<longrightarrow> current_proxy s' = Some q \<longrightarrow> current_proxy s = Some q))"

text \<open>
  The log lines of an attempt. Each attempt ends with exactly one of the lines of
  \<open>attempt_end\<close>: the publication, the status of a failed request, or the error that
  the handler logs. The lines of \<open>progress_entry\<close> come before.
\<close>

fun progress_entry :: "log_entry \<Rightarrow> bool" where
  "progress_entry (Fetching_Airplanes_Live lat lon d) = True"
| "progress_entry Fetching_OpenSky = True"
| "progress_entry (Successfully_Fetched n) = True"
| "progress_entry _ = False"

fun attempt_end :: "log_entry \<Rightarrow> bool" where
  "attempt_end (Published_To t) = True"
| "attempt_end (Api_Request_Failed c) = True"
| "attempt_end Error_Fetching_Or_Publishing = True"
| "attempt_end _ = False"

fun is_published :: "log_entry \<Rightarrow> bool" where
  "is_published (Published_To t) = True"
| "is_published _ = False"

definition attempts :: "log_entry list \<Rightarrow> nat" where
  "attempts l = length (filter attempt_end l)"

text \<open>
  \<open>same_session\<close>: nothing but the log, the outbox and the counter differ.
  \<open>attempt_shape\<close>: what one attempt adds to the log and to the outbox.
  \<open>quiet_step n\<close>: a step that publishes nothing and logs \<open>n\<close> ends of attempts.
  \<open>fetch_shape n\<close>: at most \<open>n\<close> attempts, and either one message published by the
  last of them or exactly \<open>n\<close> attempts and nothing published.
\<close>

definition same_session :: "bridge \<Rightarrow> bridge \<Rightarrow> bool" where
  "same_session s s' =
     (proxy_failures s' = proxy_failures s \<and> use_proxy s' = use_proxy s \<and>
      current_proxy s' = current_proxy s \<and> proxies s' = proxies s \<and>
      proxy_list s' = proxy_list s \<and> last_request_params s' = last_request_params s \<and>
      is_connected s' = is_connected s \<and> subscribed s' = subscribed s)"

definition attempt_shape :: "attempt_result \<Rightarrow> bridge \<Rightarrow> bridge \<Rightarrow> bool" where
  "attempt_shape r s s' =
     (\<exists>pre. list_all progress_entry pre \<and>
        (case r of
           Published \<Rightarrow>
             logged s' = logged s @ pre @ [Published_To aircraft_data_topic] \<and>
             (\<exists>d. outbox s' = outbox s @ [(aircraft_data_topic, d)])
         | Bad_Status \<Rightarrow>
             (\<exists>c. logged s' = logged s @ pre @ [Api_Request_Failed c]) \<and> outbox s' = outbox s
         | Raised \<Rightarrow> logged s' = logged s @ pre \<and> outbox s' = outbox s))"

definition quiet_step :: "nat \<Rightarrow> bridge \<Rightarrow> bridge \<Rightarrow> bool" where
  "quiet_step n s s' =
     (is_connected s' = is_connected s \<and> subscribed s' = subscribed s \<and>
      outbox s' = outbox s \<and>
      (\<exists>l. logged s' = logged s @ l \<and> attempts l = n \<and> \<not> list_ex is_published l))"


text \<open>The rows that \<open>csv.reader\<close> yields before the file ends or fails.\<close>

definition csv_rows :: "csv_file \<Rightarrow> string list list" where
  "csv_rows f = (case f of Csv_Missing \<Rightarrow> [] | Csv_Rows rows \<Rightarrow> rows | Csv_Rows_Then_Error rows \<Rightarrow> rows)"




subsection \<open>Concrete worlds, states and messages\<close>

text \<open>
  \<open>dead_world\<close>: every request and every probe raises, the shuffle keeps the order,
  publishing succeeds, no text is JSON, no text is a number. The other worlds differ from it in the fields
  named.
\<close>

definition dead_world :: world where
  "dead_world =
     \<lparr>shuffle = (\<lambda>t xs. xs), probe = (\<lambda>t p. Raises), tier1_get = (\<lambda>t q. Raises),
      tier2_get = (\<lambda>t ps. Raises), publish = (\<lambda>t tp d. Returns ()), now = (\<lambda>t. 0),
      json_loads = (\<lambda>s. Json_Decode_Error), float_of_str = (\<lambda>s. Raises)\<rparr>"

definition bad_status_world :: world where
  "bad_status_world = dead_world\<lparr>probe := (\<lambda>t p. Returns 503)\<rparr>"

definition refusing_world :: world where
  "refusing_world =
     dead_world\<lparr>probe := (\<lambda>t p. Returns 200),
                 tier2_get := (\<lambda>t ps. Returns \<lparr>status_code = 503, json_body = Raises\<rparr>)\<rparr>"





definition update_command :: json where
  "update_command = JObj [(''command'', JStr ''update'')]"


text \<open>The doubles nearest to 12.3456, 10.001 and 16.002.\<close>

definition km_12_3456 :: pyfloat where
  "km_12_3456 = Finite (6949954944958149 / 562949953421312)"

definition km_10_001 :: pyfloat where
  "km_10_001 = Finite (5630062484166541 / 562949953421312)"

definition km_16_002 :: pyfloat where
  "km_16_002 = Finite (4504162577323917 / 281474976710656)"

text \<open>
  A bridge with one candidate loaded, the same with that candidate in use, a cached
  centre, and a message on the request topic.
\<close>

definition one_candidate :: bridge where
  "one_candidate = new_bridge\<lparr>proxy_list := [''socks4://a'']\<rparr>"

definition active_candidate :: bridge where
  "active_candidate =
     one_candidate\<lparr>current_proxy := Some ''socks4://a'', proxies := proxies_for (Some ''socks4://a'')\<rparr>"

definition center :: "(string \<times> json) list" where
  "center = [(''center_lat'', JInt 33), (''center_lon'', JInt (-112))]"


section \<open>Properties\<close>

subsection \<open>Fields under the elementary updates\<close>

text \<open>The definitions that the concrete cases unfold.\<close>

lemma plan_none:
  "plan_tier1 w JNull = Returns None"
  "plan_tier1 w update_command = Returns None"
  "plan_tier1 w (JObj [(''command'', JStr ''update'')]) = Returns None"
  by (simp_all add: plan_tier1_def has_center_def update_command_def)

lemmas concrete_defs =
  fetch_and_publish_data_def max_retries_def attempt_def
     plan_none request_params_def tier1_def tier2_def handle_response_def
     switch_proxy_def find_working_proxy_def test_proxy_def blacklisted_def on_exception_def
     one_candidate_def new_bridge_def dead_world_def record_failure_def
     emit_def advance_def truthy_proxy_def proxies_for_def proxy_active_def Let_def

lemma emit_fields [simp]:
  "is_connected (emit e s) = is_connected s"
  "subscribed (emit e s) = subscribed s"
  "use_proxy (emit e s) = use_proxy s"
  "proxies (emit e s) = proxies s"
  "proxy_list (emit e s) = proxy_list s"
  "current_proxy (emit e s) = current_proxy s"
  "proxy_failures (emit e s) = proxy_failures s"
  "last_request_params (emit e s) = last_request_params s"
  "outbox (emit e s) = outbox s"
  "logged (emit e s) = logged s @ [e]"
  "tick (emit e s) = tick s"
  by (simp_all add: emit_def)

lemma advance_fields [simp]:
  "is_connected (advance s) = is_connected s"
  "subscribed (advance s) = subscribed s"
  "use_proxy (advance s) = use_proxy s"
  "proxies (advance s) = proxies s"
  "proxy_list (advance s) = proxy_list s"
  "current_proxy (advance s) = current_proxy s"
  "proxy_failures (advance s) = proxy_failures s"
  "last_request_params (advance s) = last_request_params s"
  "outbox (advance s) = outbox s"
  "logged (advance s) = logged s"
  "tick (advance s) = Suc (tick s)"
  by (simp_all add: advance_def)

lemma record_failure_fields [simp]:
  "is_connected (record_failure p s) = is_connected s"
  "subscribed (record_failure p s) = subscribed s"
  "use_proxy (record_failure p s) = use_proxy s"
  "proxies (record_failure p s) = proxies s"
  "proxy_list (record_failure p s) = proxy_list s"
  "current_proxy (record_failure p s) = current_proxy s"
  "last_request_params (record_failure p s) = last_request_params s"
  "outbox (record_failure p s) = outbox s"
  "logged (record_failure p s) = logged s"
  "tick (record_failure p s) = tick s"
  by (simp_all add: record_failure_def)

lemma failure_count_simps [simp]:
  "failure_count (emit e s) q = failure_count s q"
  "failure_count (advance s) q = failure_count s q"
  "failure_count (s\<lparr>current_proxy := c\<rparr>) q = failure_count s q"
  "failure_count (s\<lparr>proxies := ps\<rparr>) q = failure_count s q"
  "failure_count (s\<lparr>use_proxy := u\<rparr>) q = failure_count s q"
  "failure_count (s\<lparr>last_request_params := l\<rparr>) q = failure_count s q"
  "failure_count (s\<lparr>is_connected := b\<rparr>) q = failure_count s q"
  "failure_count (s\<lparr>subscribed := ts\<rparr>) q = failure_count s q"
  "failure_count (s\<lparr>outbox := ob\<rparr>) q = failure_count s q"
  by (simp_all add: failure_count_def)

lemma failure_count_record_failure:
  "failure_count (record_failure p s) q = (if q = p then Suc (failure_count s p) else failure_count s q)"
  by (simp add: failure_count_def record_failure_def split: option.splits)

lemma blacklisted_iff: "blacklisted s p = (3 \<le> failure_count s p)"
  by (simp add: blacklisted_def failure_count_def split: option.splits)

subsection \<open>What every callback preserves\<close>

lemma later_refl [simp]: "later s s"
  by (simp add: later_def)

lemma later_trans: "later s s' \<Longrightarrow> later s' s'' \<Longrightarrow> later s s''"
  unfolding later_def
  apply (elim conjE exE)
  apply (intro conjI)
  apply (meson le_trans)
  apply blast
  apply simp
  apply simp
  subgoal for l l'
    apply (rule exI [of _ "l @ l'"])
    apply simp
    by (meson le_trans)
  by (meson le_trans)

lemma test_proxy_later:
  assumes "test_proxy w q s = (b, s')"
  shows "later s s' \<and> logged s' = logged s \<and> current_proxy s' = current_proxy s \<and>
         use_proxy s' = use_proxy s \<and> proxies s' = proxies s \<and> (b \<longrightarrow> failure_count s' q < 3)"
  using assms
  by (auto simp: test_proxy_def later_def blacklisted_iff failure_count_record_failure
      split: if_splits outcome.splits)

lemma try_proxies_later:
  "try_proxies w qs s = (r, s') \<Longrightarrow>
     later s s' \<and> current_proxy s' = current_proxy s \<and> use_proxy s' = use_proxy s \<and> proxies s' = proxies s \<and>
     (\<forall>q. r = Some q \<longrightarrow> failure_count s' q < 3)"
proof (induction qs arbitrary: s)
  case Nil
  then show ?case by simp
next
  case (Cons q qs)
  obtain b s1 where t: "test_proxy w q s = (b, s1)" by (cases "test_proxy w q s")
  note t1 = test_proxy_later [OF t]
  show ?case
  proof (cases b)
    case True
    with Cons.prems t have r: "r = Some q" and s': "s' = emit (Found_Working_Proxy q) s1" by auto
    from t1 True have fc: "failure_count s1 q < 3" by simp
    have mono: "\<forall>p. failure_count s p \<le> failure_count s1 p" using t1 by (simp add: later_def)
    from fc mono have "later s1 s'" unfolding s' later_def
      by (auto simp: not_le)
    with t1 have "later s s'" using later_trans by blast
    with t1 fc show ?thesis by (simp add: r s')
  next
    case False
    with Cons.prems t have "try_proxies w qs s1 = (r, s')" by simp
    from Cons.IH [OF this] t1 show ?thesis using later_trans by auto
  qed
qed


lemma find_working_proxy_later:
  assumes "find_working_proxy w s = (r, s')"
  shows "later s s' \<and> current_proxy s' = current_proxy s \<and> use_proxy s' = use_proxy s \<and>
         proxies s' = proxies s \<and> (\<forall>q. r = Some q \<longrightarrow> failure_count s' q < 3)"
proof (cases "proxy_list s = []")
  case True
  with assms show ?thesis by (simp add: find_working_proxy_def)
next
  case False
  with assms have "try_proxies w (shuffle w (tick s) (proxy_list s)) (advance s) = (r, s')"
    by (simp add: find_working_proxy_def)
  note t = try_proxies_later [OF this]
  have "later s (advance s)" by (simp add: later_def)
  with t have "later s s'" using later_trans by blast
  with t show ?thesis by simp
qed

lemma later_emit: "(\<forall>q. e \<noteq> Found_Working_Proxy q) \<Longrightarrow> later s (emit e s)"
  by (auto simp: later_def)

lemma switch_proxy_later: "later s (switch_proxy w s)"
proof -
  obtain r s1 where f: "find_working_proxy w (emit Switching_Proxy s) = (r, s1)"
    by (cases "find_working_proxy w (emit Switching_Proxy s)")
  note f1 = find_working_proxy_later [OF f]
  have a: "later s (emit Switching_Proxy s)" by (simp add: later_emit)
  with f1 have b: "later s s1" using later_trans by blast
  have "later s1 (switch_proxy w s)"
  proof (cases "truthy_proxy r")
    case True
    then obtain a where r: "r = Some a" and "a \<noteq> []"
      by (auto simp: truthy_proxy_def split: option.splits)
    with f1 have "failure_count s1 a < 3" by simp
    with r True f show ?thesis
      by (auto simp: switch_proxy_def later_def)
  next
    case False
    with f show ?thesis by (auto simp: switch_proxy_def later_def)
  qed
  with b show ?thesis using later_trans by blast
qed


subsection \<open>What one attempt changes\<close>

lemma same_session_refl [simp]: "same_session s s"
  by (simp add: same_session_def)

lemma same_session_trans: "same_session s s' \<Longrightarrow> same_session s' s'' \<Longrightarrow> same_session s s''"
  by (simp add: same_session_def)

lemma same_session_emit [simp]: "same_session s (emit e s)" "same_session s (advance s)"
  by (simp_all add: same_session_def)

lemma tier1_frame:
  assumes "tier1 w plan s = (r, s')"
  shows "same_session s s' \<and> outbox s' = outbox s \<and> tick s \<le> tick s' \<and>
         (\<exists>pre. logged s' = logged s @ pre \<and> list_all progress_entry pre) \<and>
         (\<forall>resp. r = Some resp \<longrightarrow> status_code resp = 200)"
  using assms
  by (auto simp: tier1_def Let_def same_session_def split: option.splits outcome.splits if_splits)

lemma tier2_frame:
  assumes "tier2 w s = (r, s')"
  shows "same_session s s' \<and> outbox s' = outbox s \<and> tick s \<le> tick s' \<and>
         (\<exists>pre. logged s' = logged s @ pre \<and> list_all progress_entry pre)"
  using assms
  by (auto simp: tier2_def Let_def same_session_def)

lemma handle_response_frame:
  assumes "handle_response w resp s = (r, s')"
  shows "same_session s s' \<and> tick s \<le> tick s' \<and> attempt_shape r s s'"
proof -
  have a: "same_session s s' \<and> tick s \<le> tick s'"
    using assms
    by (auto simp: handle_response_def Let_def same_session_def
        split: outcome.splits if_splits prod.splits)
  have "attempt_shape r s s'"
  proof (cases r)
    case Published
    with assms show ?thesis
      by (auto simp: handle_response_def Let_def attempt_shape_def
          split: outcome.splits if_splits prod.splits intro!: exI [of _ "[Successfully_Fetched _]"])
  next
    case Bad_Status
    with assms show ?thesis
      by (auto simp: handle_response_def Let_def attempt_shape_def
          split: outcome.splits if_splits prod.splits intro!: exI [of _ "[]"])
  next
    case Raised
    with assms show ?thesis
      by (auto simp: handle_response_def Let_def attempt_shape_def
          split: outcome.splits if_splits prod.splits)
  qed
  with a show ?thesis by simp
qed

lemma attempt_shape_prepend:
  assumes "logged s1 = logged s @ pre" "list_all progress_entry pre" "outbox s1 = outbox s"
    and "attempt_shape r s1 s'"
  shows "attempt_shape r s s'"
proof -
  from assms(4) obtain pre' where p: "list_all progress_entry pre'"
    and c: "(case r of
           Published \<Rightarrow>
             logged s' = logged s1 @ pre' @ [Published_To aircraft_data_topic] \<and>
             (\<exists>d. outbox s' = outbox s1 @ [(aircraft_data_topic, d)])
         | Bad_Status \<Rightarrow>
             (\<exists>c. logged s' = logged s1 @ pre' @ [Api_Request_Failed c]) \<and> outbox s' = outbox s1
         | Raised \<Rightarrow> logged s' = logged s1 @ pre' \<and> outbox s' = outbox s1)"
    unfolding attempt_shape_def by blast
  show ?thesis unfolding attempt_shape_def
    apply (rule exI [of _ "pre @ pre'"])
    using assms(1,2,3) p c by (cases r) auto
qed

lemma attempt_frame:
  assumes "attempt w s = (r, s')"
  shows "same_session s s' \<and> tick s \<le> tick s' \<and> attempt_shape r s s'"
proof (cases "plan_tier1 w (request_params s)")
  case Raises
  with assms have "r = Raised" "s' = s" by (auto simp: attempt_def)
  then show ?thesis by (auto simp: attempt_shape_def intro!: exI [of _ "[]"])
next
  case (Returns plan)
  obtain r1 s1 where t1: "tier1 w plan s = (r1, s1)" by (cases "tier1 w plan s")
  note f1 = tier1_frame [OF t1]
  from f1 obtain pre1 where l1: "logged s1 = logged s @ pre1" "list_all progress_entry pre1"
    by blast
  show ?thesis
  proof (cases r1)
    case (Some resp)
    with assms Returns t1 have "handle_response w resp s1 = (r, s')" by (simp add: attempt_def)
    note h = handle_response_frame [OF this]
    from h f1 l1 show ?thesis
      using same_session_trans attempt_shape_prepend by (meson le_trans)
  next
    case None
    obtain r2 s2 where t2: "tier2 w s1 = (r2, s2)" by (cases "tier2 w s1")
    note f2 = tier2_frame [OF t2]
    from f2 obtain pre2 where l2: "logged s2 = logged s1 @ pre2" "list_all progress_entry pre2"
      by blast
    have ss: "same_session s s2" using f1 f2 same_session_trans by blast
    have tk: "tick s \<le> tick s2" using f1 f2 by (meson le_trans)
    have l12: "logged s2 = logged s @ (pre1 @ pre2)" "list_all progress_entry (pre1 @ pre2)"
      "outbox s2 = outbox s"
      using l1 l2 f1 f2 by simp_all
    show ?thesis
    proof (cases r2)
      case Raises
      with assms Returns t1 None t2 have "r = Raised" "s' = s2" by (auto simp: attempt_def)
      with ss tk l12 show ?thesis by (auto simp: attempt_shape_def)
    next
      case (Returns resp)
      with assms \<open>plan_tier1 w (request_params s) = Returns plan\<close> t1 None t2
      have "handle_response w resp s2 = (r, s')" by (simp add: attempt_def)
      note h = handle_response_frame [OF this]
      from h have "attempt_shape r s s'" using attempt_shape_prepend [OF l12] by blast
      with h ss tk show ?thesis using same_session_trans by (meson le_trans)
    qed
  qed
qed


subsection \<open>The callbacks\<close>

lemma later_same_session:
  assumes "same_session s s'" "tick s \<le> tick s'" "logged s' = logged s @ l"
    and "\<forall>q. Found_Working_Proxy q \<notin> set l"
  shows "later s s'"
  using assms by (auto simp: later_def same_session_def failure_count_def)

lemma attempt_later:
  assumes "attempt w s = (r, s')"
  shows "later s s'"
proof -
  note f = attempt_frame [OF assms]
  then obtain pre where pre: "list_all progress_entry pre"
    and c: "(case r of
           Published \<Rightarrow>
             logged s' = logged s @ pre @ [Published_To aircraft_data_topic] \<and>
             (\<exists>d. outbox s' = outbox s @ [(aircraft_data_topic, d)])
         | Bad_Status \<Rightarrow>
             (\<exists>c. logged s' = logged s @ pre @ [Api_Request_Failed c]) \<and> outbox s' = outbox s
         | Raised \<Rightarrow> logged s' = logged s @ pre \<and> outbox s' = outbox s)"
    unfolding attempt_shape_def by blast
  from pre have nf: "\<forall>q. Found_Working_Proxy q \<notin> set pre"
    by (auto simp: list_all_iff)
  from c nf obtain l where "logged s' = logged s @ l" "\<forall>q. Found_Working_Proxy q \<notin> set l"
    by (cases r) auto
  with f show ?thesis using later_same_session by blast
qed

lemma record_failure_later: "later s (record_failure p s)"
  by (auto simp: later_def failure_count_record_failure)

lemma on_exception_later: "later s (on_exception w s)"
proof -
  let ?s1 = "emit Error_Fetching_Or_Publishing s"
  have a: "later s ?s1" by (simp add: later_emit)
  have "later ?s1 (on_exception w s)"
  proof (cases "current_proxy s")
    case None
    then show ?thesis by (simp add: on_exception_def Let_def)
  next
    case (Some p)
    show ?thesis
    proof (cases "proxy_active ?s1")
      case True
      have "later ?s1 (record_failure p ?s1)" by (rule record_failure_later)
      moreover have "later (record_failure p ?s1) (switch_proxy w (record_failure p ?s1))"
        by (rule switch_proxy_later)
      ultimately have "later ?s1 (switch_proxy w (record_failure p ?s1))"
        by (rule later_trans)
      with Some True show ?thesis by (simp add: on_exception_def Let_def)
    next
      case False
      with Some show ?thesis by (simp add: on_exception_def Let_def)
    qed
  qed
  with a show ?thesis by (rule later_trans)
qed

lemma fetch_loop_later: "later s (fetch_loop w k s)"
proof (induction w k s rule: fetch_loop.induct)
  case (1 w k s)
  show ?case
  proof (cases "k < max_retries")
    case False
    then show ?thesis by (simp add: fetch_loop.simps [of w k s])
  next
    case True
    obtain r s1 where a: "attempt w s = (r, s1)" by (cases "attempt w s")
    note l1 = attempt_later [OF a]
    show ?thesis
    proof (cases r)
      case Published
      with True a l1 show ?thesis by (simp add: fetch_loop.simps [of w k s])
    next
      case Bad_Status
      from "1.IH"(1) [OF True a [symmetric] Bad_Status]
      have "later (switch_proxy w s1) (fetch_loop w (Suc k) (switch_proxy w s1))" .
      with l1 switch_proxy_later [of s1 w] have "later s (fetch_loop w (Suc k) (switch_proxy w s1))"
        using later_trans by blast
      with True a Bad_Status show ?thesis by (simp add: fetch_loop.simps [of w k s])
    next
      case Raised
      from "1.IH"(2) [OF True a [symmetric] Raised]
      have "later (on_exception w s1) (fetch_loop w (Suc k) (on_exception w s1))" .
      with l1 on_exception_later [of s1 w] have "later s (fetch_loop w (Suc k) (on_exception w s1))"
        using later_trans by blast
      with True a Raised show ?thesis by (simp add: fetch_loop.simps [of w k s])
    qed
  qed
qed

lemma fetch_and_publish_data_later: "later s (fetch_and_publish_data w s)"
  by (simp add: fetch_and_publish_data_def fetch_loop_later)

lemma later_then_fetch:
  assumes "later s s1"
  shows "later s (fetch_and_publish_data w s1)"
  using assms fetch_and_publish_data_later by (rule later_trans)

lemma later_update:
  "later s (s\<lparr>is_connected := b\<rparr>)"
  "later s (s\<lparr>subscribed := ts\<rparr>)"
  "later s (s\<lparr>last_request_params := j\<rparr>)"
  by (simp_all add: later_def)

lemma on_connect_later: "later s (on_connect w rc s)"
proof (cases "rc = 0")
  case True
  let ?s1 = "emit (Subscribed_To request_topic)
                ((emit Connected_To_Broker (s\<lparr>is_connected := True\<rparr>))
                   \<lparr>subscribed := subscribed s @ [request_topic]\<rparr>)"
  have "later s ?s1" by (auto simp: later_def)
  then have "later s (fetch_and_publish_data w ?s1)" by (rule later_then_fetch)
  with True show ?thesis by (simp add: on_connect_def)
next
  case False
  then show ?thesis by (simp add: on_connect_def later_emit)
qed

lemma on_disconnect_later: "later s (on_disconnect rc s)"
  by (auto simp: on_disconnect_def Let_def later_def)

lemma on_message_later: "later s (on_message w msg s)"
proof (cases "payload msg")
  case Raises
  then show ?thesis by (simp add: on_message_def later_emit)
next
  case (Returns str)
  note pl = this
  let ?s1 = "emit (Message_Received (topic msg)) s"
  have s1: "later s ?s1" by (simp add: later_emit)
  show ?thesis
  proof (cases "topic msg = request_topic")
    case False
    with Returns s1 show ?thesis by (simp add: on_message_def Let_def)
  next
    case True
    show ?thesis
    proof (cases "json_loads w str")
      case Json_Decode_Error
      have a: "later s (emit Update_Requested_Plain_Text ?s1)"
        and b: "later s (emit (Received_Message str) ?s1)"
        by (auto simp: later_def)
      from later_then_fetch [OF a] b pl True Json_Decode_Error
      show ?thesis by (simp add: on_message_def Let_def)
    next
      case Other_Error
      have "later s (emit Error_Processing_Message ?s1)" by (auto simp: later_def)
      with pl True Other_Error show ?thesis by (simp add: on_message_def Let_def)
    next
      case (Loaded request_data)
      let ?s2 = "?s1\<lparr>last_request_params := Some request_data\<rparr>"
      have e: "\<And>e. (\<forall>q. e \<noteq> Found_Working_Proxy q) \<Longrightarrow> later s (emit e ?s2)"
        by (auto simp: later_def)
      have c: "later s (emit Error_Processing_Message ?s2)" by (rule e) simp
      show ?thesis
      proof (cases request_data)
        case (JObj kvs)
        have a: "later s (fetch_and_publish_data w (emit Update_Requested ?s2))"
          by (rule later_then_fetch, rule e) simp
        have b: "later s (emit (Received_Command
                   (dict_get_default kvs ''command'' (JStr ''unknown''))) ?s2)"
          by (rule e) simp
        from a b pl True Loaded JObj
        show ?thesis by (simp add: on_message_def Let_def)
      qed (use c pl True Loaded in \<open>simp_all add: on_message_def Let_def\<close>)
    qed
  qed
qed

lemma step_later: "later s (step w e s)"
  by (cases e) (simp_all add: on_connect_later on_disconnect_later on_message_later)

lemma run_later: "later s (run w es s)"
proof (induction es arbitrary: s)
  case Nil
  show ?case by simp
next
  case (Cons e es)
  from step_later [of s w e] Cons.IH [of "step w e s"] show ?case
    using later_trans by auto
qed

subsection \<open>The blacklist\<close>

text \<open>
  C1. Once the failure count of a candidate has reached 3, it stays at 3 or more through
  every later callback of the session, no later call of \<open>find_working_proxy\<close> inside
  these callbacks logs it as found, and a call of \<open>find_working_proxy\<close> in the state
  reached never returns it, whatever the probes answer.
\<close>

theorem blacklisted_never_selected:
  assumes "3 \<le> failure_count s p"
  shows "3 \<le> failure_count (run w es s) p \<and>
         Found_Working_Proxy p \<notin> set (drop (length (logged s)) (logged (run w es s))) \<and>
         fst (find_working_proxy w' (run w es s)) \<noteq> Some p"
proof -
  let ?s' = "run w es s"
  have l: "later s ?s'" by (rule run_later)
  then have a: "3 \<le> failure_count ?s' p" using assms by (auto simp: later_def dest: le_trans)
  from l assms have b: "Found_Working_Proxy p \<notin> set (drop (length (logged s)) (logged ?s'))"
    by (auto simp: later_def)
  obtain r s2 where f: "find_working_proxy w' ?s' = (r, s2)" by (cases "find_working_proxy w' ?s'")
  from find_working_proxy_later [OF f] have "later ?s' s2" "\<forall>q. r = Some q \<longrightarrow> failure_count s2 q < 3"
    by simp_all
  with a have "r \<noteq> Some p" by (auto simp: later_def not_less dest: le_trans)
  with a b f show ?thesis by simp
qed

theorem blacklisted_never_selected_witness:
  "3 \<le> failure_count (one_candidate\<lparr>proxy_failures := [''socks4://a'' \<mapsto> 3]\<rparr>) ''socks4://a'' \<and>
   3 \<le> failure_count
         (run dead_world [Connect 0] (one_candidate\<lparr>proxy_failures := [''socks4://a'' \<mapsto> 3]\<rparr>))
         ''socks4://a'' \<and>
   fst (find_working_proxy bad_status_world
         (run dead_world [Connect 0] (one_candidate\<lparr>proxy_failures := [''socks4://a'' \<mapsto> 3]\<rparr>)))
     \<noteq> Some ''socks4://a''"
proof -
  let ?s = "one_candidate\<lparr>proxy_failures := [''socks4://a'' \<mapsto> 3]\<rparr>"
  have h: "3 \<le> failure_count ?s ''socks4://a''"
    by (simp add: failure_count_def)
  from blacklisted_never_selected [OF h, of dead_world "[Connect 0]" bad_status_world] h
  show ?thesis by blast
qed

subsection \<open>The probe\<close>




subsection \<open>Loading\<close>

lemma load_rows_proxy_list:
  "proxy_list (load_rows rows s) = proxy_list s @ map hd (filter accepted rows)"
  by (induction rows arbitrary: s) (auto simp: accepted_def split: list.splits)

text \<open>
  C8, amended. \<open>load_proxies_from_csv\<close> appends to the candidate list, in the order of
  the input, the first field of exactly the rows whose first field starts with
  \<open>socks4://\<close>; every other row is ignored, and nothing is removed or merged, so an
  address that occurs twice in the input occurs twice in the list.
\<close>

theorem load_keeps_accepted_rows:
  "proxy_list (load_proxies_from_csv f s) = proxy_list s @ map hd (filter accepted (csv_rows f))"
  by (cases f) (simp_all add: load_proxies_from_csv_def csv_rows_def Let_def load_rows_proxy_list)

text \<open>
  C8, as the specification states it, fails: the list is not deduplicated.
\<close>

theorem load_keeps_duplicates:
  "proxy_list (load_proxies_from_csv (Csv_Rows [[''socks4://a''], [''socks4://a'']]) new_bridge)
     = [''socks4://a'', ''socks4://a''] \<and>
   \<not> distinct (proxy_list
       (load_proxies_from_csv (Csv_Rows [[''socks4://a''], [''socks4://a'']]) new_bridge))"
  by (simp add: load_proxies_from_csv_def Let_def accepted_def new_bridge_def)

subsection \<open>Rounding to a double\<close>

lemma bit_length_pos: "0 < n \<Longrightarrow> bit_length n = Suc (bit_length (n div 2))"
  by (simp add: bit_length.simps [of n])

lemma bit_length_nonpos: "n \<le> 0 \<Longrightarrow> bit_length n = 0"
  by (simp add: bit_length.simps [of n])

lemma bit_length_bounds:
  "0 < n \<Longrightarrow> 2 ^ (bit_length n - 1) \<le> n \<and> n < 2 ^ bit_length n"
proof (induction n rule: bit_length.induct)
  case (1 n)
  show ?case
  proof (cases "n = 1")
    case True
    then show ?thesis by (simp add: bit_length_pos bit_length_nonpos)
  next
    case False
    with "1.prems" have m: "0 < n div 2" by simp
    from "1.prems" have "\<not> n \<le> 0" by simp
    from "1.IH" [OF this m]
    have ih: "2 ^ (bit_length (n div 2) - 1) \<le> n div 2" "n div 2 < 2 ^ bit_length (n div 2)"
      by simp_all
    from m have b: "bit_length (n div 2) = Suc (bit_length (n div 2) - 1)"
      by (simp add: bit_length_pos)
    have "(2::int) ^ bit_length (n div 2) = 2 * 2 ^ (bit_length (n div 2) - 1)"
      by (subst b) simp
    with ih(1) have lo: "2 ^ bit_length (n div 2) \<le> n" by linarith
    from ih(2) have hi: "n < 2 * 2 ^ bit_length (n div 2)" by linarith
    from lo hi "1.prems" show ?thesis by (simp add: bit_length_pos)
  qed
qed

lemma bit_length_le:
  assumes "0 < n" "n < 2 ^ k"
  shows "bit_length n \<le> k"
proof (rule ccontr)
  assume "\<not> bit_length n \<le> k"
  then have "k \<le> bit_length n - 1" by simp
  then have "(2::int) ^ k \<le> 2 ^ (bit_length n - 1)" by (simp add: power_increasing)
  with bit_length_bounds [OF assms(1)] assms(2) show False by linarith
qed

lemma bit_length_gt:
  assumes "2 ^ k \<le> n"
  shows "k < bit_length n"
proof (rule ccontr)
  assume "\<not> k < bit_length n"
  then have "(2::int) ^ bit_length n \<le> 2 ^ k" by (simp add: power_increasing)
  moreover from assms have "0 < n" by (smt (verit) zero_less_power)
  ultimately show False using bit_length_bounds [of n] assms by linarith
qed

lemma round_half_even_int [simp]: "round_half_even (of_int j) = j"
  by (simp add: round_half_even_def)

lemma round_to_double_exact:
  assumes "\<bar>m\<bar> < 2 ^ 53"
  shows "round_to_double (of_int m) = Finite (of_int m)"
proof (cases "m = 0")
  case True
  then show ?thesis by (simp add: round_to_double_def)
next
  case False
  define b where "b = bit_length \<bar>m\<bar>"
  define x :: rat where "x = of_int m"
  define j where "j = \<bar>m\<bar> * 2 ^ (53 - b)"
  from False have pos: "0 < \<bar>m\<bar>" by simp
  from bit_length_le [OF pos assms] have b53: "b \<le> 53" by (simp add: b_def)
  from pos have b1: "1 \<le> b" by (simp add: b_def bit_length_pos)
  have ax: "\<bar>x\<bar> = of_int \<bar>m\<bar>" by (simp add: x_def)
  have x0: "x \<noteq> 0" using False by (simp add: x_def)
  have one: "1 \<le> \<bar>x\<bar>"
  proof -
    from pos have "1 \<le> \<bar>m\<bar>" by simp
    then have "(of_int 1 :: rat) \<le> of_int \<bar>m\<bar>" by (simp only: of_int_le_iff)
    then show ?thesis by (simp add: ax)
  qed
  have fl: "\<lfloor>\<bar>x\<bar>\<rfloor> = \<bar>m\<bar>" by (simp only: ax floor_of_int)
  have ex: "binary_exponent \<bar>x\<bar> = int b - 1"
    using one by (simp add: binary_exponent_def fl b_def)
  have e: "max (binary_exponent \<bar>x\<bar>) (- 1022) = int b - 1" using b1 by (simp add: ex)
  have q: "two_to (int b - 53) = 1 / 2 ^ (53 - b)"
  proof (cases "b = 53")
    case True
    then show ?thesis by (simp add: two_to_def)
  next
    case False
    with b53 have "b < 53" by simp
    then have "nat (53 - int b) = 53 - b" by simp
    with \<open>b < 53\<close> show ?thesis by (simp add: two_to_def)
  qed
  have aq: "\<bar>x\<bar> / two_to (int b - 1 - 52) = of_int j"
    by (simp add: q ax j_def)
  have n: "round_half_even (\<bar>x\<bar> / two_to (int b - 1 - 52)) = j"
    by (simp only: aq round_half_even_int)
  have nz: "j \<noteq> 0" using False by (simp add: j_def)
  have ne: "\<not> (1024 \<le> int b - 1 \<or> int b - 1 = 1023 \<and> j = 2 ^ 53)"
    using b53 by simp
  have "round_to_double x
          = Finite ((if 0 < x then 1 else - 1) * of_int j * two_to (int b - 1 - 52))"
    unfolding round_to_double_def Let_def e n
    using x0 nz ne by (simp only: if_False)
  also have "(if 0 < x then 1 else - 1) * of_int j * two_to (int b - 1 - 52) = x"
  proof -
    have "of_int j * two_to (int b - 1 - 52) = \<bar>x\<bar>"
      by (simp add: q ax j_def)
    then have "(if 0 < x then 1 else - 1) * (of_int j * two_to (int b - 1 - 52)) = x"
      using x0 by (simp only:) (simp add: abs_if)
    then show ?thesis by (simp only: mult.assoc)
  qed
  finally show ?thesis by (simp only: x_def)
qed

lemma py_float_int_exact:
  "\<bar>k\<bar> < 2 ^ 53 \<Longrightarrow> py_float w (JInt k) = Returns (Finite (of_int k))"
  by (simp add: round_to_double_exact)

lemma times_1000_exact:
  assumes "\<bar>k\<bar> \<le> 10 ^ 12"
  shows "float_mul (Finite (of_int k)) (Finite 1000) = Finite (of_int (k * 1000))"
proof (cases "k = 0")
  case True
  then show ?thesis by (simp add: float_mul_def)
next
  case False
  from assms have "\<bar>k * 1000\<bar> < 2 ^ 53" by (simp add: abs_mult)
  from round_to_double_exact [OF this] False show ?thesis
    by (simp add: float_mul_def)
qed


lemma round_half_even_ge: "\<lfloor>x\<rfloor> \<le> round_half_even x"
  by (simp add: round_half_even_def Let_def)

lemma two_to_pos: "0 < two_to e"
  by (simp add: two_to_def)

lemma two_to_power_int: "two_to e = power_int 2 e"
  by (simp add: two_to_def power_int_def inverse_eq_divide power_one_over)

lemma two_to_diff: "two_to (e - 52) * 2 ^ 52 = two_to e"
proof -
  have "power_int (2::rat) (e - 52) * power_int 2 52 = power_int 2 (e - 52 + 52)"
    by (rule power_int_add [symmetric]) simp
  moreover have "power_int (2::rat) 52 = 2 ^ 52" by (simp add: power_int_def)
  ultimately show ?thesis by (simp add: two_to_power_int)
qed

lemma py_float_huge_int:
  assumes "2 ^ 1024 \<le> \<bar>k\<bar>"
  shows "py_float w (JInt k) = Raises"
proof -
  define x :: rat where "x = of_int k"
  define b where "b = bit_length \<bar>k\<bar>"
  define e where "e = int b - 1"
  from assms have pos: "0 < \<bar>k\<bar>" by (smt (verit) zero_less_power)
  have ax: "\<bar>x\<bar> = of_int \<bar>k\<bar>" by (simp add: x_def)
  have x0: "x \<noteq> 0" using pos by (simp add: x_def)
  have one: "1 \<le> \<bar>x\<bar>"
  proof -
    from pos have "1 \<le> \<bar>k\<bar>" by simp
    then have "(of_int 1 :: rat) \<le> of_int \<bar>k\<bar>" by (simp only: of_int_le_iff)
    then show ?thesis by (simp add: ax)
  qed
  have fl: "\<lfloor>\<bar>x\<bar>\<rfloor> = \<bar>k\<bar>" by (simp only: ax floor_of_int)
  have ex: "binary_exponent \<bar>x\<bar> = e"
    using one by (simp add: binary_exponent_def fl b_def e_def)
  from bit_length_gt [OF assms] have big: "1024 \<le> e" by (simp add: b_def e_def)
  then have m: "max (binary_exponent \<bar>x\<bar>) (- 1022) = e" by (simp add: ex)
  have lo: "two_to e \<le> \<bar>x\<bar>"
  proof -
    from bit_length_bounds [OF pos] have "2 ^ (b - 1) \<le> \<bar>k\<bar>" by (simp add: b_def)
    then have "(of_int (2 ^ (b - 1)) :: rat) \<le> of_int \<bar>k\<bar>" by (simp only: of_int_le_iff)
    moreover have "nat e = b - 1" by (simp add: e_def)
    ultimately show ?thesis using big by (simp add: two_to_def ax)
  qed
  have "2 ^ 52 \<le> \<bar>x\<bar> / two_to (e - 52)"
  proof -
    from lo two_to_diff [of e] have "two_to (e - 52) * 2 ^ 52 \<le> \<bar>x\<bar>" by simp
    then show ?thesis using two_to_pos [of "e - 52"] by (simp add: pos_le_divide_eq mult.commute)
  qed
  then have "1 \<le> \<bar>x\<bar> / two_to (e - 52)" by simp
  then have "1 \<le> \<lfloor>\<bar>x\<bar> / two_to (e - 52)\<rfloor>" by (simp only: le_floor_iff of_int_1)
  with round_half_even_ge [of "\<bar>x\<bar> / two_to (e - 52)"]
  have n: "round_half_even (\<bar>x\<bar> / two_to (e - 52)) \<noteq> 0" by linarith
  have "round_to_double x = (if 0 < x then Pos_Inf else Neg_Inf)"
    unfolding round_to_double_def Let_def m
    using x0 n big by simp
  then show ?thesis by (simp add: x_def)
qed

subsection \<open>The radius of the geo-scoped request\<close>

lemma radius_m_of_product:
  "radius_m x =
     Returns (case float_mul x (Finite 1000) of
                Finite p \<Rightarrow> \<lfloor>max 10000 (min 400000 p)\<rfloor>
              | Neg_Zero \<Rightarrow> 10000
              | Pos_Inf \<Rightarrow> 400000
              | Neg_Inf \<Rightarrow> 10000
              | Not_A_Number \<Rightarrow> 400000)"
  by (cases "float_mul x (Finite 1000)")
     (auto simp: radius_m_def py_min_def py_max_def number_less_def floor_eq_iff)

lemma radius_m_bounds:
  assumes "radius_m x = Returns d"
  shows "10000 \<le> d \<and> d \<le> 400000"
  using assms unfolding radius_m_of_product
  by (cases "float_mul x (Finite 1000)") (auto simp: le_floor_iff floor_le_iff)

lemma radius_m_int:
  assumes "\<bar>k\<bar> \<le> 10 ^ 12"
  shows "radius_m (Finite (of_int k)) = Returns (max 10000 (min 400000 (k * 1000)))"
proof -
  have "\<lfloor>max 10000 (min 400000 (of_int (k * 1000) :: rat))\<rfloor> = max 10000 (min 400000 (k * 1000))"
  proof -
    have "max 10000 (min 400000 (of_int (k * 1000) :: rat))
            = of_int (max 10000 (min 400000 (k * 1000)))"
      by (simp add: max_def min_def)
    then show ?thesis by (simp only: floor_of_int)
  qed
  then show ?thesis
    unfolding radius_m_of_product times_1000_exact [OF assms] by simp
qed

lemma float_mul_examples:
  "float_mul km_12_3456 (Finite 1000) = Finite (1696766343983923 / 137438953472)"
  "float_mul km_10_001 (Finite 1000) = Finite 10001"
  "float_mul km_16_002 (Finite 1000) = Finite (8797192533835775 / 549755813888)"
  by code_simp+

lemma plan_tier1_int:
  assumes "has_center (JObj kvs) = Returns True"
    and "dict_get_default kvs ''radius_km'' (JInt 250) = JInt k" and "\<bar>k\<bar> \<le> 10 ^ 12"
  shows "plan_tier1 w (JObj kvs)
           = Returns (Some \<lparr>req_lat = dict_get kvs ''center_lat'',
                             req_lon = dict_get kvs ''center_lon'',
                             req_dist = max 10000 (min 400000 (k * 1000))\<rparr>)"
proof -
  from assms(3) have "\<bar>k\<bar> < 2 ^ 53" by simp
  then have "py_float w (JInt k) = Returns (Finite (of_int k))" by (rule py_float_int_exact)
  with assms radius_m_int [OF assms(3)] show ?thesis
    by (simp add: plan_tier1_def)
qed

lemma plan_tier1_float:
  assumes "has_center (JObj kvs) = Returns True"
    and "dict_get_default kvs ''radius_km'' (JInt 250) = JFloat x"
    and "float_mul x (Finite 1000) = Finite p"
  shows "plan_tier1 w (JObj kvs)
           = Returns (Some \<lparr>req_lat = dict_get kvs ''center_lat'',
                             req_lon = dict_get kvs ''center_lon'',
                             req_dist = \<lfloor>max 10000 (min 400000 p)\<rfloor>\<rparr>)"
  using assms by (simp add: plan_tier1_def radius_m_of_product)

lemma has_center_examples:
  "has_center (JObj center) = Returns True"
  "has_center (JObj (center @ [(''radius_km'', v)])) = Returns True"
  by (simp_all add: has_center_def center_def)

lemma plan_examples:
  "plan_tier1 w (JObj center)
     = Returns (Some \<lparr>req_lat = JInt 33, req_lon = JInt (-112), req_dist = 250000\<rparr>)"
  "plan_tier1 w (JObj (center @ [(''radius_km'', JInt 1)]))
     = Returns (Some \<lparr>req_lat = JInt 33, req_lon = JInt (-112), req_dist = 10000\<rparr>)"
  "plan_tier1 w (JObj (center @ [(''radius_km'', JInt 1000)]))
     = Returns (Some \<lparr>req_lat = JInt 33, req_lon = JInt (-112), req_dist = 400000\<rparr>)"
proof -
  have "plan_tier1 w (JObj center)
     = Returns (Some \<lparr>req_lat = dict_get center ''center_lat'',
                       req_lon = dict_get center ''center_lon'',
                       req_dist = max 10000 (min 400000 (250 * 1000))\<rparr>)"
    by (rule plan_tier1_int [OF has_center_examples(1)])
       (simp_all add: center_def dict_get_default_def)
  then show "plan_tier1 w (JObj center)
     = Returns (Some \<lparr>req_lat = JInt 33, req_lon = JInt (-112), req_dist = 250000\<rparr>)"
    by (simp add: center_def dict_get_def dict_get_default_def)
  have "plan_tier1 w (JObj (center @ [(''radius_km'', JInt 1)]))
     = Returns (Some \<lparr>req_lat = dict_get (center @ [(''radius_km'', JInt 1)]) ''center_lat'',
                       req_lon = dict_get (center @ [(''radius_km'', JInt 1)]) ''center_lon'',
                       req_dist = max 10000 (min 400000 (1 * 1000))\<rparr>)"
    by (rule plan_tier1_int [OF has_center_examples(2)])
       (simp_all add: center_def dict_get_default_def)
  then show "plan_tier1 w (JObj (center @ [(''radius_km'', JInt 1)]))
     = Returns (Some \<lparr>req_lat = JInt 33, req_lon = JInt (-112), req_dist = 10000\<rparr>)"
    by (simp add: center_def dict_get_def dict_get_default_def)
  have "plan_tier1 w (JObj (center @ [(''radius_km'', JInt 1000)]))
     = Returns (Some \<lparr>req_lat = dict_get (center @ [(''radius_km'', JInt 1000)]) ''center_lat'',
                       req_lon = dict_get (center @ [(''radius_km'', JInt 1000)]) ''center_lon'',
                       req_dist = max 10000 (min 400000 (1000 * 1000))\<rparr>)"
    by (rule plan_tier1_int [OF has_center_examples(2)])
       (simp_all add: center_def dict_get_default_def)
  then show "plan_tier1 w (JObj (center @ [(''radius_km'', JInt 1000)]))
     = Returns (Some \<lparr>req_lat = JInt 33, req_lon = JInt (-112), req_dist = 400000\<rparr>)"
    by (simp add: center_def dict_get_def dict_get_default_def)
qed

text \<open>
  Radii that are not whole numbers: 12.3456 km, 10.001 km and 16.002 km, each as the
  double nearest to it. The product with 1000 is rounded to a double before it is
  truncated.
\<close>

lemma plan_examples_fractional:
  "plan_tier1 w (JObj (center @ [(''radius_km'', JFloat km_12_3456)]))
     = Returns (Some \<lparr>req_lat = JInt 33, req_lon = JInt (-112), req_dist = 12345\<rparr>)"
  "plan_tier1 w (JObj (center @ [(''radius_km'', JFloat km_10_001)]))
     = Returns (Some \<lparr>req_lat = JInt 33, req_lon = JInt (-112), req_dist = 10001\<rparr>)"
  "plan_tier1 w (JObj (center @ [(''radius_km'', JFloat km_16_002)]))
     = Returns (Some \<lparr>req_lat = JInt 33, req_lon = JInt (-112), req_dist = 16001\<rparr>)"
proof -
  have d: "\<And>v. dict_get_default (center @ [(''radius_km'', v)]) ''radius_km'' (JInt 250) = v"
    by (simp add: center_def dict_get_default_def)
  have g: "\<And>v. dict_get (center @ [(''radius_km'', v)]) ''center_lat'' = JInt 33"
    "\<And>v. dict_get (center @ [(''radius_km'', v)]) ''center_lon'' = JInt (-112)"
    by (simp_all add: center_def dict_get_def dict_get_default_def)
  have f: "\<lfloor>max 10000 (min 400000 (1696766343983923 / 137438953472 :: rat))\<rfloor> = 12345"
    "\<lfloor>max 10000 (min 400000 (10001 :: rat))\<rfloor> = 10001"
    "\<lfloor>max 10000 (min 400000 (8797192533835775 / 549755813888 :: rat))\<rfloor> = 16001"
    by (simp_all add: floor_eq_iff)
  from plan_tier1_float [OF has_center_examples(2) d float_mul_examples(1)]
  show "plan_tier1 w (JObj (center @ [(''radius_km'', JFloat km_12_3456)]))
     = Returns (Some \<lparr>req_lat = JInt 33, req_lon = JInt (-112), req_dist = 12345\<rparr>)"
    by (simp only: g f)
  from plan_tier1_float [OF has_center_examples(2) d float_mul_examples(2)]
  show "plan_tier1 w (JObj (center @ [(''radius_km'', JFloat km_10_001)]))
     = Returns (Some \<lparr>req_lat = JInt 33, req_lon = JInt (-112), req_dist = 10001\<rparr>)"
    by (simp only: g f)
  from plan_tier1_float [OF has_center_examples(2) d float_mul_examples(3)]
  show "plan_tier1 w (JObj (center @ [(''radius_km'', JFloat km_16_002)]))
     = Returns (Some \<lparr>req_lat = JInt 33, req_lon = JInt (-112), req_dist = 16001\<rparr>)"
    by (simp only: g f)
qed

text \<open>
  C6, as the specification states it, fails where the clamped product is not a whole
  number: for a radius of 12.3456 km the request carries 12345, and neither the
  product of the doubles nor the exact product is 12345.
\<close>

theorem tier1_distance_truncated:
  "plan_tier1 dead_world (JObj (center @ [(''radius_km'', JFloat km_12_3456)]))
     = Returns (Some \<lparr>req_lat = JInt 33, req_lon = JInt (-112), req_dist = 12345\<rparr>) \<and>
   float_mul km_12_3456 (Finite 1000) = Finite (1696766343983923 / 137438953472) \<and>
   max 10000 (min 400000 (1696766343983923 / 137438953472 :: rat)) \<noteq> of_int 12345 \<and>
   max 10000 (min 400000 (6949954944958149 / 562949953421312 * 1000 :: rat)) \<noteq> of_int 12345"
  using plan_examples_fractional(1) [of dead_world] float_mul_examples(1)
  by (simp add: km_12_3456_def)

text \<open>
  C6, amended. Every Airplanes.live request is planned from a dict of cached
  parameters. Its \<open>dist\<close> is \<open>int(max(10000, min(400000, radius_km * 1000)))\<close>, where
  \<open>radius_km\<close> is \<open>float\<close> of the cached value, of 250 when there is none, and the
  product is the product of doubles: the integer part of the clamped product when that
  is finite. It lies between 10000 and 400000. For a cached radius that is an int of at
  most 10 to the 12 in magnitude, and for the default, it is exactly
  \<open>clamp(radius_km * 1000, 10000, 400000)\<close>.
\<close>

theorem tier1_distance:
  assumes "plan_tier1 w rp = Returns (Some req)"
  shows "\<exists>kvs x. rp = JObj kvs \<and>
           py_float w (case map_of kvs ''radius_km'' of None \<Rightarrow> JInt 250 | Some v \<Rightarrow> v)
             = Returns x \<and>
           req_dist req
             = (case float_mul x (Finite 1000) of
                  Finite p \<Rightarrow> \<lfloor>max 10000 (min 400000 p)\<rfloor>
                | Neg_Zero \<Rightarrow> 10000
                | Pos_Inf \<Rightarrow> 400000
                | Neg_Inf \<Rightarrow> 10000
                | Not_A_Number \<Rightarrow> 400000) \<and>
           10000 \<le> req_dist req \<and> req_dist req \<le> 400000 \<and>
           (\<forall>k. (case map_of kvs ''radius_km'' of None \<Rightarrow> JInt 250 | Some v \<Rightarrow> v) = JInt k \<and>
                \<bar>k\<bar> \<le> 10 ^ 12
                \<longrightarrow> req_dist req = max 10000 (min 400000 (k * 1000)))"
proof -
  from assms obtain kvs where rp: "rp = JObj kvs" and hc: "has_center (JObj kvs) = Returns True"
    by (auto simp: plan_tier1_def split: outcome.splits bool.splits json.splits)
  let ?v = "case map_of kvs ''radius_km'' of None \<Rightarrow> JInt 250 | Some v \<Rightarrow> v"
  have v: "dict_get_default kvs ''radius_km'' (JInt 250) = ?v"
    by (simp add: dict_get_default_def)
  from assms rp hc obtain x where x: "py_float w ?v = Returns x"
    and r: "radius_m x = Returns (req_dist req)"
    by (auto simp: plan_tier1_def v split: outcome.splits)
  from r have d: "req_dist req
             = (case float_mul x (Finite 1000) of
                  Finite p \<Rightarrow> \<lfloor>max 10000 (min 400000 p)\<rfloor>
                | Neg_Zero \<Rightarrow> 10000
                | Pos_Inf \<Rightarrow> 400000
                | Neg_Inf \<Rightarrow> 10000
                | Not_A_Number \<Rightarrow> 400000)"
    by (simp add: radius_m_of_product)
  have i: "\<forall>k. ?v = JInt k \<and> \<bar>k\<bar> \<le> 10 ^ 12
                \<longrightarrow> req_dist req = max 10000 (min 400000 (k * 1000))"
  proof (intro allI impI)
    fix k assume k: "?v = JInt k \<and> \<bar>k\<bar> \<le> 10 ^ 12"
    with v have "dict_get_default kvs ''radius_km'' (JInt 250) = JInt k" by simp
    from plan_tier1_int [OF hc this, of w] k assms rp
    show "req_dist req = max 10000 (min 400000 (k * 1000))" by auto
  qed
  from rp x d radius_m_bounds [OF r] i show ?thesis by blast
qed

text \<open>The three radii of the specification: none, 1 km and 1000 km.\<close>

theorem tier1_distance_witness:
  "plan_tier1 dead_world (JObj center)
     = Returns (Some \<lparr>req_lat = JInt 33, req_lon = JInt (-112), req_dist = 250000\<rparr>) \<and>
   plan_tier1 dead_world (JObj (center @ [(''radius_km'', JInt 1)]))
     = Returns (Some \<lparr>req_lat = JInt 33, req_lon = JInt (-112), req_dist = 10000\<rparr>) \<and>
   plan_tier1 dead_world (JObj (center @ [(''radius_km'', JInt 1000)]))
     = Returns (Some \<lparr>req_lat = JInt 33, req_lon = JInt (-112), req_dist = 400000\<rparr>) \<and>
   (10000 :: int) \<le> req_dist \<lparr>req_lat = JInt 33, req_lon = JInt (-112), req_dist = 250000\<rparr> \<and>
   req_dist \<lparr>req_lat = JInt 33, req_lon = JInt (-112), req_dist = 250000\<rparr>
     = max 10000 (min 400000 (250 * 1000))"
proof -
  have a: "plan_tier1 dead_world (JObj center)
     = Returns (Some \<lparr>req_lat = JInt 33, req_lon = JInt (-112), req_dist = 250000\<rparr>)"
    by (rule plan_examples)
  from tier1_distance [OF a] obtain kvs x where
    "JObj center = JObj kvs"
    "(10000::int) \<le> req_dist \<lparr>req_lat = JInt 33, req_lon = JInt (-112), req_dist = 250000\<rparr>"
    by blast
  with a plan_examples [of dead_world] show ?thesis by simp
qed

subsection \<open>The retry bound\<close>

lemma attempts_simps [simp]:
  "attempts [] = 0"
  "attempts (l @ l') = attempts l + attempts l'"
  "attempts (e # l) = (if attempt_end e then Suc (attempts l) else attempts l)"
  by (simp_all add: attempts_def)



lemma quiet_step_refl [simp]: "quiet_step 0 s s"
  by (simp add: quiet_step_def)












subsection \<open>Steps of the retry loop\<close>

lemma loop_step_published:
  "k < max_retries \<Longrightarrow> attempt w s = (Published, s1) \<Longrightarrow> fetch_loop w k s = s1"
  by (simp add: fetch_loop.simps [of w k s])

lemma loop_step_bad_status:
  "k < max_retries \<Longrightarrow> attempt w s = (Bad_Status, s1) \<Longrightarrow>
     fetch_loop w k s = fetch_loop w (Suc k) (switch_proxy w s1)"
  by (simp add: fetch_loop.simps [of w k s])

lemma loop_step_raised:
  "k < max_retries \<Longrightarrow> attempt w s = (Raised, s1) \<Longrightarrow>
     fetch_loop w k s = fetch_loop w (Suc k) (on_exception w s1)"
  by (simp add: fetch_loop.simps [of w k s])

lemma on_exception_active:
  "proxy_active s \<Longrightarrow> current_proxy s = Some p \<Longrightarrow>
     on_exception w s = switch_proxy w (record_failure p (emit Error_Fetching_Or_Publishing s))"
  by (simp add: on_exception_def Let_def proxy_active_def)

lemma attempt_keeps_proxy:
  assumes "attempt w s = (r, s1)"
  shows "proxy_active s1 = proxy_active s" "current_proxy s1 = current_proxy s"
    "failure_count s1 q = failure_count s q" "outbox s1 = outbox s \<or> r = Published"
proof -
  note f = attempt_frame [OF assms]
  from f show "proxy_active s1 = proxy_active s" "current_proxy s1 = current_proxy s"
    "failure_count s1 q = failure_count s q"
    by (simp_all add: same_session_def proxy_active_def failure_count_def)
  from f show "outbox s1 = outbox s \<or> r = Published"
    by (cases r) (auto simp: attempt_shape_def)
qed

lemma raised_with_proxy:
  assumes "k < max_retries" "proxy_active s" "current_proxy s = Some p"
    and "attempt w s = (Raised, s1)"
  shows "fetch_loop w k s
           = fetch_loop w (Suc k)
               (switch_proxy w (record_failure p (emit Error_Fetching_Or_Publishing s1)))"
    and "failure_count (record_failure p (emit Error_Fetching_Or_Publishing s1)) q
           = (if q = p then failure_count s p + 1 else failure_count s q)"
    and "outbox s1 = outbox s"
proof -
  note a = attempt_keeps_proxy [OF assms(4)]
  from a assms show "fetch_loop w k s
           = fetch_loop w (Suc k)
               (switch_proxy w (record_failure p (emit Error_Fetching_Or_Publishing s1)))"
    by (simp add: loop_step_raised on_exception_active)
  from a show "failure_count (record_failure p (emit Error_Fetching_Or_Publishing s1)) q
           = (if q = p then failure_count s p + 1 else failure_count s q)"
    by (simp add: failure_count_record_failure)
  from a show "outbox s1 = outbox s" by simp
qed

subsection \<open>Failures recorded by the retry loop\<close>

text \<open>
  C3, as the specification states it, fails: with a proxy active, three attempts that
  each end with status 503 are three failed attempts, and no failure is recorded.
\<close>

theorem bad_status_records_nothing:
  "proxy_active active_candidate \<and>
   filter attempt_end (logged (fetch_and_publish_data refusing_world active_candidate))
     = [Api_Request_Failed 503, Api_Request_Failed 503, Api_Request_Failed 503] \<and>
   proxy_active (fetch_and_publish_data refusing_world active_candidate) \<and>
   failure_count (fetch_and_publish_data refusing_world active_candidate) ''socks4://a'' = 0"
  by (simp add: concrete_defs fetch_loop.simps active_candidate_def refusing_world_def failure_count_def)

text \<open>
  C3, amended. While a proxy is active, an attempt that ends with an exception records
  exactly one failure against that proxy and against no other, and a rotation follows;
  an attempt that ends with a status other than 200 records nothing, and a rotation
  follows; an attempt that publishes ends the loop. The rotation probes candidates, and
  a probe that raises records a failure of its own.
\<close>

theorem failed_attempt_recording:
  assumes "k < max_retries" "proxy_active s" "current_proxy s = Some p"
    and "attempt w s = (r, s1)"
  shows "case r of
           Published \<Rightarrow> fetch_loop w k s = s1
         | Bad_Status \<Rightarrow>
             fetch_loop w k s = fetch_loop w (Suc k) (switch_proxy w s1) \<and>
             (\<forall>q. failure_count s1 q = failure_count s q)
         | Raised \<Rightarrow>
             fetch_loop w k s
               = fetch_loop w (Suc k)
                   (switch_proxy w (record_failure p (emit Error_Fetching_Or_Publishing s1))) \<and>
             failure_count (record_failure p (emit Error_Fetching_Or_Publishing s1)) p
               = failure_count s p + 1 \<and>
             (\<forall>q. q = p \<or>
                  failure_count (record_failure p (emit Error_Fetching_Or_Publishing s1)) q
                    = failure_count s q)"
proof (cases r)
  case Published
  with assms show ?thesis by (simp add: loop_step_published)
next
  case Bad_Status
  with assms attempt_keeps_proxy(3) [OF assms(4)] show ?thesis
    by (simp add: loop_step_bad_status)
next
  case Raised
  with assms have a: "attempt w s = (Raised, s1)" by simp
  note raised_with_proxy [OF assms(1,2,3) a]
  with Raised show ?thesis by simp
qed

theorem failed_attempt_recording_witness:
  "(0 :: nat) < max_retries \<and> proxy_active active_candidate \<and>
   current_proxy active_candidate = Some ''socks4://a'' \<and>
   attempt dead_world active_candidate = (Raised, advance (emit Fetching_OpenSky active_candidate)) \<and>
   failure_count active_candidate ''socks4://a'' = 0 \<and>
   failure_count
     (record_failure ''socks4://a''
        (emit Error_Fetching_Or_Publishing (advance (emit Fetching_OpenSky active_candidate))))
     ''socks4://a'' = 1"
proof -
  have k: "(0 :: nat) < max_retries" by (simp add: max_retries_def)
  have p: "proxy_active active_candidate" "current_proxy active_candidate = Some ''socks4://a''"
    by (simp_all add: active_candidate_def concrete_defs)
  have a: "attempt dead_world active_candidate
             = (Raised, advance (emit Fetching_OpenSky active_candidate))"
    by (simp add: active_candidate_def concrete_defs)
  have z: "failure_count active_candidate ''socks4://a'' = 0"
    by (simp add: active_candidate_def concrete_defs failure_count_def)
  from failed_attempt_recording [OF k p a] k p a z show ?thesis by simp
qed

subsection \<open>Exceptions after a successful request\<close>




subsection \<open>Update requests\<close>





subsection \<open>The proxy in use\<close>





















end
